theory Spec2Isabelle
  imports Complex_Main "HOL-Library.AList"
begin

section \<open>Python values used by run\_scheduled\_tasks.py\<close>

text \<open>
  Strings are lists of characters; a character stands for a code point below 256.
  A \<open>dict\<close> with string keys and values is an association list in insertion order:
  assigning to a key that is already there keeps its position, a new key goes to the end
  (\<open>AList.update\<close>), so \<open>length\<close> is Python's \<open>len\<close> and \<open>map_of\<close> is \<open>dict.get\<close>.
\<close>

type_synonym dict = "(string \<times> string) list"

definition dict_set :: "string \<Rightarrow> string \<Rightarrow> dict \<Rightarrow> dict" where
  "dict_set k v d = AList.update k v d"

definition dict_get :: "dict \<Rightarrow> string \<Rightarrow> string option" where
  "dict_get d k = map_of d k"

text \<open>\<open>str.isspace\<close> on one character, for the code points below 256.\<close>

definition isspace :: "char \<Rightarrow> bool" where
  "isspace c = (c \<in> set [CHR 0x09, CHR 0x0A, CHR 0x0B, CHR 0x0C, CHR 0x0D,
                           CHR 0x1C, CHR 0x1D, CHR 0x1E, CHR 0x1F, CHR 0x20,
                           CHR 0x85, CHR 0xA0])"

text \<open>\<open>str.lstrip\<close>, \<open>str.rstrip\<close> and \<open>str.strip\<close>, given the set of characters to remove.\<close>

definition lstrip :: "(char \<Rightarrow> bool) \<Rightarrow> string \<Rightarrow> string" where
  "lstrip p s = dropWhile p s"

definition rstrip :: "(char \<Rightarrow> bool) \<Rightarrow> string \<Rightarrow> string" where
  "rstrip p s = rev (dropWhile p (rev s))"

definition strip :: "(char \<Rightarrow> bool) \<Rightarrow> string \<Rightarrow> string" where
  "strip p s = rstrip p (lstrip p s)"

text \<open>\<open>s.strip()\<close> and \<open>s.strip(chars)\<close>.\<close>

definition strip_ws :: "string \<Rightarrow> string" where
  "strip_ws s = strip isspace s"

definition strip_chars :: "string \<Rightarrow> string \<Rightarrow> string" where
  "strip_chars chars s = strip (\<lambda>c. c \<in> set chars) s"

definition rstrip_chars :: "string \<Rightarrow> string \<Rightarrow> string" where
  "rstrip_chars chars s = rstrip (\<lambda>c. c \<in> set chars) s"

definition startswith :: "string \<Rightarrow> string \<Rightarrow> bool" where
  "startswith s p = (take (length p) s = p)"

text \<open>\<open>s.split(sep, 1)\<close> for a one-character separator: one or two pieces.\<close>

definition split1 :: "char \<Rightarrow> string \<Rightarrow> string list" where
  "split1 sep s =
     (if sep \<in> set s
      then [takeWhile (\<lambda>c. c \<noteq> sep) s, tl (dropWhile (\<lambda>c. c \<noteq> sep) s)]
      else [s])"

text \<open>
  Iterating over a file opened in text mode: \<open>\r\n\<close> and a lone \<open>\r\<close> are read as
  \<open>\n\<close>, and every line keeps its terminator (the last line has one only if the file
  ends with it).
\<close>

fun translate_newlines :: "string \<Rightarrow> string" where
  "translate_newlines [] = []"
| "translate_newlines [c] = [if c = CHR 0x0D then CHR 0x0A else c]"
| "translate_newlines (c # d # cs) =
     (if c = CHR 0x0D \<and> d = CHR 0x0A then CHR 0x0A # translate_newlines cs
      else if c = CHR 0x0D then CHR 0x0A # translate_newlines (d # cs)
      else c # translate_newlines (d # cs))"

fun split_lines :: "string \<Rightarrow> string list" where
  "split_lines [] = []"
| "split_lines (c # cs) =
     (if c = CHR 0x0A then [c] # split_lines cs
      else (case split_lines cs of [] \<Rightarrow> [[c]] | l # ls \<Rightarrow> (c # l) # ls))"

definition file_lines :: "string \<Rightarrow> string list" where
  "file_lines content = split_lines (translate_newlines content)"

text \<open>
  The values \<open>response.json()\<close> can return. A float is the rational it denotes;
  \<open>JNonFinite\<close> stands for \<open>NaN\<close> and the infinities, which Python's parser accepts.
\<close>

datatype json =
    JNull
  | JBool bool
  | JInt int
  | JFloat rat
  | JNonFinite
  | JStr string
  | JArr "json list"
  | JObj "(string \<times> json) list"

text \<open>Python's truth value of such a value (\<open>if result.get('errors'):\<close>).\<close>

fun truthy :: "json \<Rightarrow> bool" where
  "truthy JNull = False"
| "truthy (JBool b) = b"
| "truthy (JInt i) = (i \<noteq> 0)"
| "truthy (JFloat q) = (q \<noteq> 0)"
| "truthy JNonFinite = True"
| "truthy (JStr s) = (s \<noteq> [])"
| "truthy (JArr xs) = (xs \<noteq> [])"
| "truthy (JObj kvs) = (kvs \<noteq> [])"

section \<open>Exceptions\<close>

text \<open>
  The exception classes the handlers of the script tell apart. \<open>Timeout\<close>,
  \<open>ConnectionError\<close> and \<open>JSONDecodeError\<close> are subclasses of \<open>requests\<close>'
  \<open>RequestException\<close>; \<open>RequestException\<close> here is any other instance of it;
  \<open>ValueError\<close>, \<open>AttributeError\<close> and \<open>OtherException\<close> are subclasses of
  \<open>Exception\<close> outside \<open>requests\<close>. \<open>KeyboardInterrupt\<close> derives from
  \<open>BaseException\<close> only, so \<open>except Exception\<close> lets it pass. The other classes
  outside \<open>Exception\<close> (\<open>SystemExit\<close>, \<open>GeneratorExit\<close>) are raised by nothing the
  script calls before its own \<open>sys.exit\<close>, and have no constructor here.
\<close>

datatype py_exc =
    Timeout
  | ConnectionError
  | JSONDecodeError
  | RequestException
  | ValueError
  | AttributeError
  | OtherException
  | KeyboardInterrupt

fun isinstance_RequestException :: "py_exc \<Rightarrow> bool" where
  "isinstance_RequestException Timeout = True"
| "isinstance_RequestException ConnectionError = True"
| "isinstance_RequestException JSONDecodeError = True"
| "isinstance_RequestException RequestException = True"
| "isinstance_RequestException _ = False"

fun isinstance_Exception :: "py_exc \<Rightarrow> bool" where
  "isinstance_Exception KeyboardInterrupt = False"
| "isinstance_Exception _ = True"

datatype 'a outcome = Return 'a | Raise py_exc

section \<open>The world the script runs in\<close>

text \<open>
  The \<open>.env\<close> file next to the script: absent, present but failing to open or to
  decode (an \<open>OSError\<close> or \<open>UnicodeDecodeError\<close>), or present with its text.
\<close>

datatype file_state = Missing | Unreadable | Content string

record response =
  status_code :: int
  resp_text :: string
  json_body :: "json option"

record request =
  url :: string
  auth :: "string \<times> string"
  timeout :: nat
  headers :: "(string \<times> string) list"

text \<open>
  \<open>environ\<close> is the process environment (\<open>os.getenv\<close>), \<open>env_file\<close> the
  \<open>.env\<close> file, \<open>post\<close> what \<open>requests.post\<close> does with a request: it returns
  a response or raises. An interrupt of the run is a \<open>KeyboardInterrupt\<close> raised by this
  call, the one place where the script waits. \<open>json_body\<close> is \<open>None\<close> when the body
  does not parse, and \<open>response.json()\<close> raises \<open>JSONDecodeError\<close> then.
\<close>

record world =
  environ :: "string \<Rightarrow> string option"
  env_file :: file_state
  post :: "request \<Rightarrow> response outcome"

section \<open>Logging\<close>

datatype level = INFO | WARNING | ERROR

text \<open>One constructor per log call of the script, with the values its text interpolates.\<close>

datatype message =
    RunningInGithubActions
  | LoadedFromSystem nat
  | MissingInGithubActions
  | EnvFileNotFound
  | HintGithubActions
  | HintLocalDevelopment
  | LoadedFromEnvFile nat
  | ErrorReadingEnvFile
  | FailedToLoad
  | MissingRequired
  | Triggering string
  | ExecutedSuccessfully
  | TasksExecuted json
  | TotalDueTasks json
  | SomeTasksHadErrors json
  | AuthenticationFailed
  | EndpointNotFound
  | HttpError int string
  | RequestTimeout
  | ConnectionErrorMsg
  | RequestError py_exc
  | UnexpectedError py_exc
  | Separator
  | Starting
  | CompletedSuccessfully
  | ExecutionFailed
  | Interrupted
  | FatalError py_exc
  | Finished

type_synonym log = "(level \<times> message) list"

section \<open>load\_env\_variables\<close>

definition required_vars :: "string list" where
  "required_vars =
     [''FLASK_APP_URL'', ''ADMIN_USERNAME'', ''ADMIN_PASSWORD'',
      ''TELEGRAM_BOT_TOKEN'', ''DB_HOST'', ''DB_PORT'', ''DB_NAME'', ''DB_USER'',
      ''DB_PASSWORD'']"

text \<open>The body of \<open>for var in required_vars\<close>: a set, non-empty variable is stored.\<close>

definition load_var :: "(string \<Rightarrow> string option) \<Rightarrow> string \<Rightarrow> dict \<Rightarrow> dict" where
  "load_var env var env_vars =
     (case env var of
        None \<Rightarrow> env_vars
      | Some v \<Rightarrow> if v \<noteq> [] then dict_set var v env_vars else env_vars)"

text \<open>The test \<open>line and not line.startswith('#') and '=' in line\<close> on a stripped line.\<close>

definition accepted :: "string \<Rightarrow> bool" where
  "accepted line = (line \<noteq> [] \<and> \<not> startswith line ''#'' \<and> CHR ''='' \<in> set line)"

text \<open>
  The loop over the lines of the \<open>.env\<close> file. Unpacking \<open>line.split('=', 1)\<close> into
  \<open>key, value\<close> raises \<open>ValueError\<close> unless there are two pieces.
\<close>

fun read_env_lines :: "string list \<Rightarrow> dict \<Rightarrow> py_exc + dict" where
  "read_env_lines [] env_vars = Inr env_vars"
| "read_env_lines (raw # rest) env_vars =
     (let line = strip_ws raw in
      if accepted line then
        (case split1 CHR ''='' line of
           [key, val] \<Rightarrow>
             read_env_lines rest
               (dict_set (strip_ws key) (strip_chars [CHR 0x22, CHR 0x27] (strip_ws val))
                  env_vars)
         | _ \<Rightarrow> Inl ValueError)
      else read_env_lines rest env_vars)"

text \<open>The result is \<open>None\<close> or the mapping, together with the lines logged.\<close>

definition load_env_variables :: "world \<Rightarrow> dict option \<times> log" where
  "load_env_variables w =
     (if environ w ''GITHUB_ACTIONS'' = Some ''true'' then
        (let env_vars = fold (load_var (environ w)) required_vars [] in
         if length env_vars \<ge> 3
         then (Some env_vars,
               [(INFO, RunningInGithubActions), (INFO, LoadedFromSystem (length env_vars))])
         else (None, [(INFO, RunningInGithubActions), (ERROR, MissingInGithubActions)]))
      else
        (case env_file w of
           Missing \<Rightarrow>
             (None, [(ERROR, EnvFileNotFound), (INFO, HintGithubActions),
                     (INFO, HintLocalDevelopment)])
         | Unreadable \<Rightarrow> (None, [(ERROR, ErrorReadingEnvFile)])
         | Content c \<Rightarrow>
             (case read_env_lines (file_lines c) [] of
                Inl e \<Rightarrow> (None, [(ERROR, ErrorReadingEnvFile)])
              | Inr env_vars \<Rightarrow>
                  (Some env_vars, [(INFO, LoadedFromEnvFile (length env_vars))]))))"

section \<open>trigger\_scheduled\_tasks\<close>

text \<open>What one call leaves behind: its result, the requests sent and the lines logged.\<close>

record run =
  result :: "bool outcome"
  requests :: "request list"
  logged :: log

text \<open>Truth value of \<open>env_vars.get(k)\<close>: the key is there and its value is not empty.\<close>

definition present :: "string option \<Rightarrow> bool" where
  "present v = (case v of None \<Rightarrow> False | Some s \<Rightarrow> s \<noteq> [])"

definition endpoint_url :: "string \<Rightarrow> string" where
  "endpoint_url flask_app_url = rstrip_chars ''/'' flask_app_url @ ''/run_scheduled_tasks''"

text \<open>The \<open>except\<close> clauses of the function, in their order.\<close>

definition handle_exception :: "py_exc \<Rightarrow> request list \<Rightarrow> log \<Rightarrow> run" where
  "handle_exception e reqs lg =
     (if e = Timeout then
        \<lparr>result = Return False, requests = reqs, logged = lg @ [(ERROR, RequestTimeout)]\<rparr>
      else if e = ConnectionError then
        \<lparr>result = Return False, requests = reqs, logged = lg @ [(ERROR, ConnectionErrorMsg)]\<rparr>
      else if isinstance_RequestException e then
        \<lparr>result = Return False, requests = reqs, logged = lg @ [(ERROR, RequestError e)]\<rparr>
      else if isinstance_Exception e then
        \<lparr>result = Return False, requests = reqs, logged = lg @ [(ERROR, UnexpectedError e)]\<rparr>
      else \<lparr>result = Raise e, requests = reqs, logged = lg\<rparr>)"

text \<open>\<open>result.get(k, default)\<close> on the parsed object.\<close>

definition get_default :: "(string \<times> json) list \<Rightarrow> string \<Rightarrow> json \<Rightarrow> json" where
  "get_default obj k d = (case map_of obj k of None \<Rightarrow> d | Some v \<Rightarrow> v)"

text \<open>
  The branch for status 200. A body that does not parse raises in \<open>response.json()\<close>;
  a parsed value that is no object raises \<open>AttributeError\<close> at the first \<open>result.get\<close>,
  after the success line has been logged.
\<close>

definition handle_200 :: "response \<Rightarrow> request list \<Rightarrow> log \<Rightarrow> run" where
  "handle_200 r reqs lg =
     (case json_body r of
        None \<Rightarrow> handle_exception JSONDecodeError reqs lg
      | Some res \<Rightarrow>
          (let lg1 = lg @ [(INFO, ExecutedSuccessfully)] in
           case res of
             JObj obj \<Rightarrow>
               (let lg2 = lg1 @ [(INFO, TasksExecuted (get_default obj ''tasks_executed'' (JInt 0))),
                                 (INFO, TotalDueTasks (get_default obj ''total_due_tasks'' (JInt 0)))];
                    lg3 = (case map_of obj ''errors'' of
                             None \<Rightarrow> lg2
                           | Some errs \<Rightarrow>
                               if truthy errs then lg2 @ [(WARNING, SomeTasksHadErrors errs)]
                               else lg2)
                in \<lparr>result = Return True, requests = reqs, logged = lg3\<rparr>)
           | _ \<Rightarrow> handle_exception AttributeError reqs lg1))"

definition handle_response :: "response \<Rightarrow> request list \<Rightarrow> log \<Rightarrow> run" where
  "handle_response r reqs lg =
     (if status_code r = 200 then handle_200 r reqs lg
      else if status_code r = 401 then
        \<lparr>result = Return False, requests = reqs, logged = lg @ [(ERROR, AuthenticationFailed)]\<rparr>
      else if status_code r = 404 then
        \<lparr>result = Return False, requests = reqs, logged = lg @ [(ERROR, EndpointNotFound)]\<rparr>
      else
        \<lparr>result = Return False, requests = reqs,
         logged = lg @ [(ERROR, HttpError (status_code r) (resp_text r))]\<rparr>)"

definition trigger_scheduled_tasks :: "world \<Rightarrow> run" where
  "trigger_scheduled_tasks w =
     (case load_env_variables w of
        (env_vars, lg0) \<Rightarrow>
          (if env_vars = None \<or> env_vars = Some [] then
             \<lparr>result = Return False, requests = [], logged = lg0 @ [(ERROR, FailedToLoad)]\<rparr>
           else
             (case env_vars of
                None \<Rightarrow>
                  \<lparr>result = Return False, requests = [], logged = lg0 @ [(ERROR, FailedToLoad)]\<rparr>
              | Some d \<Rightarrow>
                  (case (dict_get d ''FLASK_APP_URL'', dict_get d ''ADMIN_USERNAME'',
                         dict_get d ''ADMIN_PASSWORD'') of
                     (Some flask_app_url, Some admin_username, Some admin_password) \<Rightarrow>
                       if flask_app_url = [] \<or> admin_username = [] \<or> admin_password = [] then
                         \<lparr>result = Return False, requests = [],
                          logged = lg0 @ [(ERROR, MissingRequired)]\<rparr>
                       else
                         (let req = \<lparr>url = endpoint_url flask_app_url,
                                     auth = (admin_username, admin_password),
                                     timeout = 30,
                                     headers = [(''Content-Type'', ''application/json'')]\<rparr>;
                              lg1 = lg0 @ [(INFO, Triggering (url req))]
                          in case post w req of
                               Raise e \<Rightarrow> handle_exception e [req] lg1
                             | Return r \<Rightarrow> handle_response r [req] lg1)
                   | _ \<Rightarrow>
                       \<lparr>result = Return False, requests = [],
                        logged = lg0 @ [(ERROR, MissingRequired)]\<rparr>))))"

section \<open>main\<close>

text \<open>How the process ends: \<open>sys.exit\<close> with a code, or an exception nobody caught.\<close>

datatype ending = Exit int | Uncaught py_exc

record process =
  ending :: ending
  sent :: "request list"
  printed :: log

definition banner :: "message \<Rightarrow> log" where
  "banner m = [(INFO, Separator), (INFO, m), (INFO, Separator)]"

definition main :: "world \<Rightarrow> process" where
  "main w =
     (let r = trigger_scheduled_tasks w;
          lg = banner Starting @ logged r
      in case result r of
           Return success \<Rightarrow>
             if success then
               \<lparr>ending = Exit 0, sent = requests r,
                printed = lg @ [(INFO, CompletedSuccessfully)] @ banner Finished\<rparr>
             else
               \<lparr>ending = Exit 1, sent = requests r,
                printed = lg @ [(ERROR, ExecutionFailed)] @ banner Finished\<rparr>
         | Raise e \<Rightarrow>
             if e = KeyboardInterrupt then
               \<lparr>ending = Exit 1, sent = requests r,
                printed = lg @ [(INFO, Interrupted)] @ banner Finished\<rparr>
             else if isinstance_Exception e then
               \<lparr>ending = Exit 1, sent = requests r,
                printed = lg @ [(ERROR, FatalError e)] @ banner Finished\<rparr>
             else \<lparr>ending = Uncaught e, sent = requests r, printed = lg\<rparr>)"

section \<open>Inputs for the examples\<close>

text \<open>The request the script sends for a base URL, a user name and a password.\<close>

definition build_request :: "string \<Rightarrow> string \<Rightarrow> string \<Rightarrow> request" where
  "build_request u n p =
     \<lparr>url = endpoint_url u, auth = (n, p), timeout = 30,
      headers = [(''Content-Type'', ''application/json'')]\<rparr>"

text \<open>
  A local run: no CI flag, a \<open>.env\<close> file with the three keys, a comment and a blank
  line; the base URL ends in two slashes. What the server does is the parameter.
\<close>

definition local_content :: string where
  "local_content =
     ''FLASK_APP_URL = http://h//\<newline># admin\<newline>\<newline>ADMIN_USERNAME=u\<newline>ADMIN_PASSWORD=p\<newline>''"

definition local_world :: "(request \<Rightarrow> response outcome) \<Rightarrow> world" where
  "local_world p = \<lparr>environ = (\<lambda>_. None), env_file = Content local_content, post = p\<rparr>"

text \<open>A local run without a \<open>.env\<close> file, against a server that would answer 200.\<close>

definition partial_report :: response where
  "partial_report =
     \<lparr>status_code = 200, resp_text = [],
      json_body = Some (JObj [(''tasks_executed'', JInt 5), (''errors'', JArr [JStr ''boom''])])\<rparr>"

definition bare_world :: world where
  "bare_world = \<lparr>environ = (\<lambda>_. None), env_file = Missing, post = (\<lambda>_. Return partial_report)\<rparr>"

text \<open>A rejected login, and a status 200 whose body is no JSON.\<close>

definition denied :: response where
  "denied = \<lparr>status_code = 401, resp_text = ''denied'', json_body = Some (JObj [])\<rparr>"

definition html_page :: response where
  "html_page = \<lparr>status_code = 200, resp_text = ''<html>OK</html>'', json_body = None\<rparr>"

text \<open>A CI run whose environment holds three database variables and none of the essential ones.\<close>

definition ci_environ :: "string \<Rightarrow> string option" where
  "ci_environ =
     map_of [(''GITHUB_ACTIONS'', ''true''), (''DB_HOST'', ''db''), (''DB_PORT'', ''5432''),
             (''DB_NAME'', ''polls'')]"

definition ci_world :: world where
  "ci_world = \<lparr>environ = ci_environ, env_file = Missing, post = (\<lambda>_. Raise Timeout)\<rparr>"

text \<open>A CI run with the three essential variables and two more that are set but empty.\<close>

definition padded_environ :: "string \<Rightarrow> string option" where
  "padded_environ =
     map_of [(''GITHUB_ACTIONS'', ''true''), (''FLASK_APP_URL'', ''http://h''),
             (''ADMIN_USERNAME'', ''u''), (''ADMIN_PASSWORD'', ''p''), (''DB_HOST'', []),
             (''DB_PORT'', [])]"

definition padded_world :: world where
  "padded_world = \<lparr>environ = padded_environ, env_file = Missing, post = (\<lambda>_. Raise Timeout)\<rparr>"

text \<open>A local run whose \<open>.env\<close> file has a comment, blank lines and a line without \<open>=\<close>.\<close>

definition comments_only :: string where
  "comments_only = ''# no settings yet\<newline>\<newline>   \<newline>not a setting''"

definition comment_world :: world where
  "comment_world =
     \<lparr>environ = (\<lambda>_. None), env_file = Content comments_only,
      post = (\<lambda>_. Return partial_report)\<rparr>"

text \<open>A local run whose \<open>.env\<close> file lacks the password.\<close>

definition two_keys_content :: string where
  "two_keys_content = ''FLASK_APP_URL=http://h\<newline>ADMIN_USERNAME=u\<newline>''"

definition two_keys_world :: world where
  "two_keys_world =
     \<lparr>environ = (\<lambda>_. None), env_file = Content two_keys_content,
      post = (\<lambda>_. Return partial_report)\<rparr>"

section \<open>Statements of the specification\<close>

text \<open>The specification's URL rule: exactly one trailing slash is removed.\<close>

definition spec_trim_one_trailing_slash :: "string \<Rightarrow> string" where
  "spec_trim_one_trailing_slash s = (if s \<noteq> [] \<and> last s = CHR ''/'' then butlast s else s)"

text \<open>
  The specification's reading of the \<open>.env\<close> file, on the lines as they are in the
  file: a line counts when it is not blank, is not a comment (its first character after
  leading whitespace is not \<open>#\<close>) and contains \<open>=\<close>; its key is the text before the
  first \<open>=\<close>, trimmed; its value is the text after the first \<open>=\<close>, trimmed and
  without surrounding quote characters; every such line sets its key, in file order.
\<close>

definition spec_blank :: "string \<Rightarrow> bool" where
  "spec_blank l = list_all isspace l"

definition spec_comment :: "string \<Rightarrow> bool" where
  "spec_comment l = (case dropWhile isspace l of [] \<Rightarrow> False | c # _ \<Rightarrow> c = CHR ''#'')"

definition spec_entry_line :: "string \<Rightarrow> bool" where
  "spec_entry_line l = (\<not> spec_blank l \<and> \<not> spec_comment l \<and> CHR ''='' \<in> set l)"

definition spec_key :: "string \<Rightarrow> string" where
  "spec_key l = strip_ws (takeWhile (\<lambda>c. c \<noteq> CHR ''='') l)"

definition spec_value :: "string \<Rightarrow> string" where
  "spec_value l =
     strip_chars [CHR 0x22, CHR 0x27] (strip_ws (tl (dropWhile (\<lambda>c. c \<noteq> CHR ''='') l)))"

definition spec_entries :: "string list \<Rightarrow> (string \<times> string) list" where
  "spec_entries ls = map (\<lambda>l. (spec_key l, spec_value l)) (filter spec_entry_line ls)"

definition spec_mapping :: "string list \<Rightarrow> string \<Rightarrow> string option" where
  "spec_mapping ls = fold (\<lambda>(k, v) m. m(k \<mapsto> v)) (spec_entries ls) Map.empty"

text \<open>An environment in which every variable set to the empty string is unset instead.\<close>

definition unset_empty :: "(string \<Rightarrow> string option) \<Rightarrow> string \<Rightarrow> string option" where
  "unset_empty env = (\<lambda>k. if env k = Some [] then None else env k)"

text \<open>The entry a variable contributes in CI mode.\<close>

definition ci_entry :: "(string \<Rightarrow> string option) \<Rightarrow> string \<Rightarrow> (string \<times> string) option" where
  "ci_entry env k = (case env k of None \<Rightarrow> None | Some v \<Rightarrow> if v \<noteq> [] then Some (k, v) else None)"

section \<open>Properties of trigger\_scheduled\_tasks\<close>

lemma handle_exception_result:
  "isinstance_Exception e \<Longrightarrow> result (handle_exception e reqs lg) = Return False"
  by (simp add: handle_exception_def)

lemma handle_exception_interrupt:
  "result (handle_exception KeyboardInterrupt reqs lg) = Raise KeyboardInterrupt"
  by (simp add: handle_exception_def)

lemma handle_exception_requests: "requests (handle_exception e reqs lg) = reqs"
  by (simp add: handle_exception_def)

lemma handle_200_requests: "requests (handle_200 r reqs lg) = reqs"
  by (simp add: handle_200_def handle_exception_requests Let_def split: option.split json.split)

lemma handle_response_requests: "requests (handle_response r reqs lg) = reqs"
  by (simp add: handle_response_def handle_200_requests)

text \<open>The three ways through the function: no usable mapping, a key missing, a request sent.\<close>

lemma trigger_without_config:
  assumes "fst (load_env_variables w) = None \<or> fst (load_env_variables w) = Some []"
  shows "trigger_scheduled_tasks w =
           \<lparr>result = Return False, requests = [],
            logged = snd (load_env_variables w) @ [(ERROR, FailedToLoad)]\<rparr>"
  using assms by (auto simp: trigger_scheduled_tasks_def split: prod.split)

lemma trigger_missing_key:
  assumes "fst (load_env_variables w) = Some d" and "d \<noteq> []"
    and "\<not> present (dict_get d ''FLASK_APP_URL'') \<or> \<not> present (dict_get d ''ADMIN_USERNAME'')
         \<or> \<not> present (dict_get d ''ADMIN_PASSWORD'')"
  shows "trigger_scheduled_tasks w =
           \<lparr>result = Return False, requests = [],
            logged = snd (load_env_variables w) @ [(ERROR, MissingRequired)]\<rparr>"
  using assms
  by (auto simp: trigger_scheduled_tasks_def present_def split: prod.split option.splits)

lemma trigger_with_config:
  assumes "fst (load_env_variables w) = Some d"
    and "dict_get d ''FLASK_APP_URL'' = Some u" and "u \<noteq> []"
    and "dict_get d ''ADMIN_USERNAME'' = Some n" and "n \<noteq> []"
    and "dict_get d ''ADMIN_PASSWORD'' = Some p" and "p \<noteq> []"
  shows "trigger_scheduled_tasks w =
           (case post w (build_request u n p) of
              Raise e \<Rightarrow>
                handle_exception e [build_request u n p]
                  (snd (load_env_variables w) @ [(INFO, Triggering (endpoint_url u))])
            | Return r \<Rightarrow>
                handle_response r [build_request u n p]
                  (snd (load_env_variables w) @ [(INFO, Triggering (endpoint_url u))]))"
proof -
  from assms(2) have "d \<noteq> []" by (auto simp: dict_get_def)
  moreover obtain lg where "load_env_variables w = (Some d, lg)"
    using assms(1) by (cases "load_env_variables w") simp
  ultimately show ?thesis using assms(2-)
    by (simp add: trigger_scheduled_tasks_def build_request_def Let_def split: outcome.split)
qed

lemma trigger_requests_cases:
  obtains (silent) "requests (trigger_scheduled_tasks w) = []"
      and "result (trigger_scheduled_tasks w) = Return False"
  | (sent) d u n p where "fst (load_env_variables w) = Some d"
      and "dict_get d ''FLASK_APP_URL'' = Some u" and "u \<noteq> []"
      and "dict_get d ''ADMIN_USERNAME'' = Some n" and "n \<noteq> []"
      and "dict_get d ''ADMIN_PASSWORD'' = Some p" and "p \<noteq> []"
      and "requests (trigger_scheduled_tasks w) = [build_request u n p]"
proof (cases "fst (load_env_variables w)")
  case None
  then show ?thesis using trigger_without_config[of w] silent by simp
next
  case (Some d)
  show ?thesis
  proof (cases "d = []")
    case True
    with Some show ?thesis using trigger_without_config[of w] silent by simp
  next
    case False
    show ?thesis
    proof (cases "present (dict_get d ''FLASK_APP_URL'') \<and> present (dict_get d ''ADMIN_USERNAME'')
         \<and> present (dict_get d ''ADMIN_PASSWORD'')")
      case True
      then obtain u n p where *: "dict_get d ''FLASK_APP_URL'' = Some u" "u \<noteq> []"
        "dict_get d ''ADMIN_USERNAME'' = Some n" "n \<noteq> []"
        "dict_get d ''ADMIN_PASSWORD'' = Some p" "p \<noteq> []"
        by (auto simp: present_def split: option.splits)
      have "requests (trigger_scheduled_tasks w) = [build_request u n p]"
        unfolding trigger_with_config[OF Some *]
        by (simp add: handle_exception_requests handle_response_requests split: outcome.split)
      with Some * show ?thesis using sent by blast
    next
      case no: False
      then show ?thesis using trigger_missing_key[OF Some False] silent by auto
    qed
  qed
qed

lemma absent_not_present:
  "a = None \<or> b = None \<or> c = None \<Longrightarrow> \<not> present a \<or> \<not> present b \<or> \<not> present c"
  by (auto simp: present_def)

lemma rstrip_trailing:
  assumes "p c" and "b = [] \<or> \<not> p (last b)"
  shows "rstrip p (b @ replicate n c) = b"
proof -
  have "dropWhile p (replicate n c @ rev b) = dropWhile p (rev b)"
    by (rule dropWhile_append2) (use assms(1) in simp)
  also have "\<dots> = rev b"
    using assms(2) by (cases b rule: rev_cases) simp_all
  finally show ?thesis by (simp add: rstrip_def)
qed

subsection \<open>Stripping\<close>

lemma rstrip_eq_Nil: "rstrip p s = [] \<longleftrightarrow> (\<forall>c\<in>set s. p c)"
  by (simp add: rstrip_def)

lemma rstrip_Cons_keep: "\<not> p x \<Longrightarrow> rstrip p (x # xs) = x # rstrip p xs"
  by (simp add: rstrip_def dropWhile_append3)

lemma strip_eq_Nil: "strip p s = [] \<longleftrightarrow> (\<forall>c\<in>set s. p c)"
proof (cases "dropWhile p s")
  case Nil
  moreover from Nil have "\<forall>c\<in>set s. p c" by simp
  ultimately show ?thesis by (simp add: strip_def lstrip_def rstrip_def del: dropWhile_eq_Nil_conv)
next
  case (Cons x xs)
  then have "\<not> p x" and "x \<in> set s"
    using hd_dropWhile[of p s] set_dropWhileD[of x p s] by auto
  with Cons show ?thesis by (auto simp: strip_def lstrip_def rstrip_Cons_keep)
qed

lemma strip_Cons:
  "dropWhile p s = x # xs \<Longrightarrow> strip p s = x # rstrip p xs"
  using hd_dropWhile[of p s] by (simp add: strip_def lstrip_def rstrip_Cons_keep)

lemma rstrip_decomp: "\<exists>b. s = rstrip p s @ b \<and> (\<forall>c\<in>set b. p c)"
proof -
  have "rev s = takeWhile p (rev s) @ dropWhile p (rev s)" by simp
  then have "s = rev (dropWhile p (rev s)) @ rev (takeWhile p (rev s))"
    by (metis rev_append rev_rev_ident)
  moreover have "\<forall>c\<in>set (rev (takeWhile p (rev s))). p c"
    by (auto dest: set_takeWhileD)
  ultimately show ?thesis unfolding rstrip_def by blast
qed

lemma strip_decomp:
  "\<exists>a b. s = a @ strip p s @ b \<and> (\<forall>c\<in>set a. p c) \<and> (\<forall>c\<in>set b. p c)"
proof -
  obtain b where b: "dropWhile p s = rstrip p (dropWhile p s) @ b" "\<forall>c\<in>set b. p c"
    using rstrip_decomp[of "dropWhile p s" p] by blast
  have "s = takeWhile p s @ dropWhile p s" by simp
  with b(1) have "s = takeWhile p s @ strip p s @ b"
    by (simp add: strip_def lstrip_def)
  moreover have "\<forall>c\<in>set (takeWhile p s). p c" by (auto dest: set_takeWhileD)
  ultimately show ?thesis using b(2) by blast
qed

lemma strip_prepend: "(\<forall>c\<in>set a. p c) \<Longrightarrow> strip p (a @ t) = strip p t"
  by (simp add: strip_def lstrip_def dropWhile_append)

lemma rstrip_append: "(\<forall>c\<in>set b. p c) \<Longrightarrow> rstrip p (t @ b) = rstrip p t"
  by (simp add: rstrip_def dropWhile_append)

lemma strip_append:
  assumes "\<forall>c\<in>set b. p c"
  shows "strip p (t @ b) = strip p t"
proof (cases "\<forall>c\<in>set t. p c")
  case True
  with assms have "\<forall>c\<in>set (t @ b). p c" by auto
  then have "strip p (t @ b) = []" by (simp only: strip_eq_Nil)
  moreover from True have "strip p t = []" by (simp only: strip_eq_Nil)
  ultimately show ?thesis by simp
next
  case False
  then have "dropWhile p (t @ b) = dropWhile p t @ b" by (auto simp: dropWhile_append)
  then show ?thesis by (simp add: strip_def lstrip_def rstrip_append[OF assms])
qed

lemma set_strip: "\<not> p c \<Longrightarrow> c \<in> set (strip p s) \<longleftrightarrow> c \<in> set s"
proof -
  assume c: "\<not> p c"
  obtain a b where d: "s = a @ strip p s @ b" "\<forall>c\<in>set a. p c" "\<forall>c\<in>set b. p c"
    using strip_decomp[of s p] by blast
  have "set s = set a \<union> set (strip p s) \<union> set b" by (subst d(1)) auto
  with c d(2,3) show ?thesis by auto
qed

subsection \<open>A line of the file\<close>

lemma not_isspace_equals: "\<not> isspace CHR ''=''"
  by (simp add: isspace_def)

lemma startswith_hash:
  "startswith s ''#'' \<longleftrightarrow> (case s of [] \<Rightarrow> False | c # _ \<Rightarrow> c = CHR ''#'')"
  by (cases s) (simp_all add: startswith_def)

lemma strip_ws_comment: "startswith (strip_ws l) ''#'' \<longleftrightarrow> spec_comment l"
proof (cases "dropWhile isspace l")
  case Nil
  then have "\<forall>c\<in>set l. isspace c" by simp
  then have e: "strip_ws l = []" by (simp only: strip_ws_def strip_eq_Nil)
  show ?thesis unfolding spec_comment_def Nil e by (simp add: startswith_def)
next
  case (Cons x xs)
  then show ?thesis
    by (simp add: strip_ws_def strip_Cons[OF Cons] startswith_hash spec_comment_def)
qed

lemma accepted_strip_ws: "accepted (strip_ws l) \<longleftrightarrow> spec_entry_line l"
proof -
  have "strip_ws l \<noteq> [] \<longleftrightarrow> \<not> spec_blank l"
    by (simp add: strip_ws_def strip_eq_Nil spec_blank_def list_all_iff)
  moreover have "CHR ''='' \<in> set (strip_ws l) \<longleftrightarrow> CHR ''='' \<in> set l"
    unfolding strip_ws_def by (rule set_strip[of isspace "CHR ''=''", OF not_isspace_equals])
  ultimately show ?thesis
    by (simp only: accepted_def spec_entry_line_def strip_ws_comment)
qed

lemma stripped_pieces:
  assumes "CHR ''='' \<in> set l"
  shows "strip_ws (takeWhile (\<lambda>c. c \<noteq> CHR ''='') (strip_ws l))
           = strip_ws (takeWhile (\<lambda>c. c \<noteq> CHR ''='') l)"
    and "strip_ws (tl (dropWhile (\<lambda>c. c \<noteq> CHR ''='') (strip_ws l)))
           = strip_ws (tl (dropWhile (\<lambda>c. c \<noteq> CHR ''='') l))"
proof -
  let ?ne = "\<lambda>c. c \<noteq> CHR ''=''"
  define m where "m = strip_ws l"
  obtain a b where l: "l = a @ m @ b" and a: "\<forall>c\<in>set a. isspace c" and b: "\<forall>c\<in>set b. isspace c"
    using strip_decomp[of l isspace] unfolding m_def strip_ws_def by blast
  have m: "CHR ''='' \<in> set m"
    unfolding m_def strip_ws_def using assms
    by (simp only: set_strip[of isspace "CHR ''=''", OF not_isspace_equals])
  from a have a': "\<forall>c\<in>set a. ?ne c" using not_isspace_equals by auto
  have tw: "takeWhile ?ne l = a @ takeWhile ?ne m"
    unfolding l using a' m by (auto simp: takeWhile_append)
  have dw: "dropWhile ?ne l = dropWhile ?ne m @ b"
    unfolding l using a' m by (auto simp: dropWhile_append)
  from m have "dropWhile ?ne m \<noteq> []" by auto
  with dw have tl: "tl (dropWhile ?ne l) = tl (dropWhile ?ne m) @ b" by simp
  have "strip_ws (takeWhile ?ne l) = strip_ws (takeWhile ?ne m)"
    unfolding tw strip_ws_def by (rule strip_prepend[OF a])
  then show "strip_ws (takeWhile ?ne (strip_ws l)) = strip_ws (takeWhile ?ne l)"
    by (simp only: m_def)
  have "strip_ws (tl (dropWhile ?ne l)) = strip_ws (tl (dropWhile ?ne m))"
    unfolding tl strip_ws_def by (rule strip_append[OF b])
  then show "strip_ws (tl (dropWhile ?ne (strip_ws l))) = strip_ws (tl (dropWhile ?ne l))"
    by (simp only: m_def)
qed

lemma read_env_lines_step:
  "read_env_lines (raw # rest) d =
     (if spec_entry_line raw then read_env_lines rest (dict_set (spec_key raw) (spec_value raw) d)
      else read_env_lines rest d)"
proof (cases "spec_entry_line raw")
  case True
  then have eq: "CHR ''='' \<in> set raw" and acc: "accepted (strip_ws raw)"
    by (simp_all add: spec_entry_line_def accepted_strip_ws)
  then have "CHR ''='' \<in> set (strip_ws raw)" by (simp add: accepted_def)
  then show ?thesis using True acc
    by (simp add: split1_def spec_key_def spec_value_def stripped_pieces[OF eq])
next
  case False
  then show ?thesis by (simp add: accepted_strip_ws)
qed

lemma read_env_lines_fold:
  "read_env_lines ls d = Inr (fold (\<lambda>(k, v). dict_set k v) (spec_entries ls) d)"
proof (induction ls arbitrary: d)
  case Nil
  show ?case by (simp add: spec_entries_def)
next
  case (Cons raw rest)
  show ?case
    unfolding read_env_lines_step by (simp add: Cons.IH spec_entries_def)
qed

lemma map_of_fold_dict_set:
  "map_of (fold (\<lambda>(k, v). dict_set k v) es d) = fold (\<lambda>(k, v) m. m(k \<mapsto> v)) es (map_of d)"
  by (induction es arbitrary: d) (simp_all add: dict_set_def update_conv' split: prod.split)

lemma distinct_fold_dict_set:
  "distinct (map fst d) \<Longrightarrow> distinct (map fst (fold (\<lambda>(k, v). dict_set k v) es d))"
  by (induction es arbitrary: d) (simp_all add: dict_set_def distinct_update split: prod.split)

lemma fold_upd_origin:
  "fold (\<lambda>(k, v) m. m(k \<mapsto> v)) es m k = Some v \<Longrightarrow> m k = Some v \<or> (k, v) \<in> set es"
proof (induction es arbitrary: m)
  case Nil
  then show ?case by simp
next
  case (Cons e es)
  obtain k' v' where e: "e = (k', v')" by (cases e)
  from Cons.prems have "fold (\<lambda>(k, v) m. m(k \<mapsto> v)) es (m(k' \<mapsto> v')) k = Some v"
    by (simp add: e del: fun_upd_apply)
  from Cons.IH[OF this] show ?case by (auto simp: e split: if_splits)
qed

lemma spec_mapping_origin:
  assumes "spec_mapping ls k = Some v"
  shows "\<exists>l\<in>set ls. spec_entry_line l \<and> k = spec_key l \<and> v = spec_value l"
proof -
  from assms have "(k, v) \<in> set (spec_entries ls)"
    unfolding spec_mapping_def by (auto dest: fold_upd_origin)
  then show ?thesis by (auto simp: spec_entries_def)
qed

lemma read_env_lines_rejected:
  "\<forall>l\<in>set ls. \<not> accepted (strip_ws l) \<Longrightarrow> read_env_lines ls d = Inr d"
  by (induction ls) simp_all

lemma load_env_variables_file:
  assumes "environ w ''GITHUB_ACTIONS'' \<noteq> Some ''true''" and "env_file w = Content c"
  shows "load_env_variables w =
           (case read_env_lines (file_lines c) [] of
              Inl e \<Rightarrow> (None, [(ERROR, ErrorReadingEnvFile)])
            | Inr env_vars \<Rightarrow> (Some env_vars, [(INFO, LoadedFromEnvFile (length env_vars))]))"
  using assms by (simp add: load_env_variables_def)

subsection \<open>The loop over the variables in CI mode\<close>

lemma update_fresh: "k \<notin> fst ` set d \<Longrightarrow> AList.update k v d = d @ [(k, v)]"
  by (induction d) auto

lemma load_var_fresh:
  "k \<notin> fst ` set d \<Longrightarrow>
     load_var env k d = d @ (case ci_entry env k of None \<Rightarrow> [] | Some e \<Rightarrow> [e])"
  by (simp add: load_var_def ci_entry_def dict_set_def update_fresh split: option.split)

lemma fold_load_var:
  "distinct ks \<Longrightarrow> set ks \<inter> fst ` set d = {} \<Longrightarrow>
     fold (load_var env) ks d = d @ List.map_filter (ci_entry env) ks"
proof (induction ks arbitrary: d)
  case Nil
  then show ?case by (simp add: List.map_filter_simps)
next
  case (Cons k ks)
  from Cons.prems have fresh: "k \<notin> fst ` set d" by auto
  have keys: "fst ` set (load_var env k d) \<subseteq> insert k (fst ` set d)"
    by (auto simp: load_var_fresh[OF fresh] ci_entry_def split: option.splits if_splits)
  with Cons.prems have "set ks \<inter> fst ` set (load_var env k d) = {}" by auto
  with Cons.prems Cons.IH[of "load_var env k d"]
  have "fold (load_var env) ks (load_var env k d)
          = load_var env k d @ List.map_filter (ci_entry env) ks"
    by simp
  then show ?case
    by (simp add: load_var_fresh[OF fresh] List.map_filter_simps split: option.split)
qed

lemma distinct_required_vars: "distinct required_vars"
  by (simp add: required_vars_def)

lemma ci_env_vars:
  "fold (load_var env) required_vars [] = List.map_filter (ci_entry env) required_vars"
  using fold_load_var[OF distinct_required_vars, of "[]" env] by simp

lemma length_map_filter_ci:
  "length (List.map_filter (ci_entry env) ks) = length (filter (\<lambda>k. present (env k)) ks)"
  by (induction ks)
     (auto simp: List.map_filter_simps ci_entry_def present_def split: option.splits)

lemma map_of_map_filter_ci:
  "map_of (List.map_filter (ci_entry env) ks) k
     = (if k \<in> set ks \<and> present (env k) then env k else None)"
  by (induction ks)
     (auto simp: List.map_filter_simps ci_entry_def present_def split: option.splits)

lemma ci_entry_unset_empty: "ci_entry (unset_empty env) = ci_entry env"
  by (auto simp: ci_entry_def unset_empty_def fun_eq_iff split: option.splits)

lemma load_env_variables_ci:
  assumes "environ w ''GITHUB_ACTIONS'' = Some ''true''"
  shows "load_env_variables w =
     (let env_vars = List.map_filter (ci_entry (environ w)) required_vars in
      if 3 \<le> length env_vars
      then (Some env_vars,
            [(INFO, RunningInGithubActions), (INFO, LoadedFromSystem (length env_vars))])
      else (None, [(INFO, RunningInGithubActions), (ERROR, MissingInGithubActions)]))"
  using assms by (simp add: load_env_variables_def ci_env_vars)

subsection \<open>The example runs, evaluated\<close>

lemma padded_load:
  "load_env_variables padded_world =
     (Some [(''FLASK_APP_URL'', ''http://h''), (''ADMIN_USERNAME'', ''u''),
            (''ADMIN_PASSWORD'', ''p'')],
      [(INFO, RunningInGithubActions), (INFO, LoadedFromSystem 3)])"
  by (simp add: padded_world_def padded_environ_def load_env_variables_def required_vars_def
        load_var_def dict_set_def)

lemma comments_only_rejected:
  "list_all (\<lambda>l. \<not> accepted (strip_ws l)) (file_lines comments_only)"
  by code_simp

lemma two_keys_dict:
  "read_env_lines (file_lines two_keys_content) [] =
     Inr [(''FLASK_APP_URL'', ''http://h''), (''ADMIN_USERNAME'', ''u'')]"
  by code_simp

lemma two_keys_load:
  "fst (load_env_variables two_keys_world) =
     Some [(''FLASK_APP_URL'', ''http://h''), (''ADMIN_USERNAME'', ''u'')]"
  by (simp add: load_env_variables_def two_keys_world_def two_keys_dict)

lemma local_dict:
  "read_env_lines (file_lines local_content) [] =
     Inr [(''FLASK_APP_URL'', ''http://h//''), (''ADMIN_USERNAME'', ''u''),
          (''ADMIN_PASSWORD'', ''p'')]"
  by code_simp

lemma local_load:
  "load_env_variables (local_world p) =
     (Some [(''FLASK_APP_URL'', ''http://h//''), (''ADMIN_USERNAME'', ''u''),
            (''ADMIN_PASSWORD'', ''p'')], [(INFO, LoadedFromEnvFile 3)])"
  by (simp add: load_env_variables_def local_world_def local_dict)

lemma local_request: "endpoint_url ''http://h//'' = ''http://h/run_scheduled_tasks''"
  by code_simp

lemma local_trigger:
  "trigger_scheduled_tasks (local_world p) =
     (case p (build_request ''http://h//'' ''u'' ''p'') of
        Raise e \<Rightarrow>
          handle_exception e [build_request ''http://h//'' ''u'' ''p'']
            [(INFO, LoadedFromEnvFile 3), (INFO, Triggering ''http://h/run_scheduled_tasks'')]
      | Return r \<Rightarrow>
          handle_response r [build_request ''http://h//'' ''u'' ''p'']
            [(INFO, LoadedFromEnvFile 3), (INFO, Triggering ''http://h/run_scheduled_tasks'')])"
proof -
  have p: "post (local_world p) = p" by (simp add: local_world_def)
  show ?thesis
    by (subst trigger_with_config[where d = "[(''FLASK_APP_URL'', ''http://h//''), (''ADMIN_USERNAME'', ''u''),
            (''ADMIN_PASSWORD'', ''p'')]" and u = "''http://h//''" and n = "''u''" and p = "''p''"])
       (simp_all add: local_load dict_get_def local_request p split: outcome.split)
qed

section \<open>The claims\<close>

text \<open>
  C1. In CI mode the claim lets \<open>load_env_variables\<close> succeed only when the three
  essential keys (base URL, admin user name, admin password) are in the environment. The
  code counts any three of its nine variables: with \<open>DB_HOST\<close>, \<open>DB_PORT\<close> and
  \<open>DB_NAME\<close> set and no essential key, it returns a mapping of three entries.
\<close>

theorem load_env_variables_counts_any_three:
  "environ ci_world ''GITHUB_ACTIONS'' = Some ''true''
   \<and> environ ci_world ''FLASK_APP_URL'' = None
   \<and> environ ci_world ''ADMIN_USERNAME'' = None
   \<and> environ ci_world ''ADMIN_PASSWORD'' = None
   \<and> load_env_variables ci_world =
       (Some [(''DB_HOST'', ''db''), (''DB_PORT'', ''5432''), (''DB_NAME'', ''polls'')],
        [(INFO, RunningInGithubActions), (INFO, LoadedFromSystem 3)])"
  by (simp add: ci_world_def ci_environ_def load_env_variables_def required_vars_def
        load_var_def dict_set_def)

text \<open>
  C2, as the specification states it: exactly one trailing slash is trimmed from the base
  URL. The code's \<open>rstrip('/')\<close> removes them all: for \<open>http://h//\<close> the URL built is
  \<open>http://h/run_scheduled_tasks\<close>, where the rule of the specification gives
  \<open>http://h//run_scheduled_tasks\<close>.
\<close>

theorem endpoint_url_one_slash_counterexample:
  "endpoint_url ''http://h//'' = ''http://h/run_scheduled_tasks''
   \<and> spec_trim_one_trailing_slash ''http://h//'' @ ''/run_scheduled_tasks''
       = ''http://h//run_scheduled_tasks''
   \<and> endpoint_url ''http://h//''
       \<noteq> spec_trim_one_trailing_slash ''http://h//'' @ ''/run_scheduled_tasks''"
  by (simp add: endpoint_url_def rstrip_chars_def rstrip_def spec_trim_one_trailing_slash_def)

text \<open>
  C2, amended: the URL of the request is the configured base URL without any of its
  trailing slashes (none, one or several), followed by \<open>/run_scheduled_tasks\<close>.
\<close>

theorem endpoint_url_strips_all_trailing_slashes:
  assumes "fst (load_env_variables w) = Some d"
    and "dict_get d ''FLASK_APP_URL'' = Some (b @ replicate n CHR ''/'')"
    and "b = [] \<or> last b \<noteq> CHR ''/''"
    and "requests (trigger_scheduled_tasks w) = [req]"
  shows "url req = b @ ''/run_scheduled_tasks''"
proof (cases w rule: trigger_requests_cases)
  case silent
  with assms(4) show ?thesis by simp
next
  case (sent d' u m p)
  from sent(1,2) assms(1,2) have u: "u = b @ replicate n CHR ''/''" by simp
  from sent(8) assms(4) have "url req = endpoint_url u" by (simp add: build_request_def)
  also have "\<dots> = b @ ''/run_scheduled_tasks''"
    unfolding u endpoint_url_def rstrip_chars_def
    using assms(3) by (subst rstrip_trailing) simp_all
  finally show ?thesis .
qed

theorem endpoint_url_strips_all_trailing_slashes_witness:
  "fst (load_env_variables (local_world (\<lambda>_. Raise Timeout)))
     = Some [(''FLASK_APP_URL'', ''http://h//''), (''ADMIN_USERNAME'', ''u''),
             (''ADMIN_PASSWORD'', ''p'')]
   \<and> requests (trigger_scheduled_tasks (local_world (\<lambda>_. Raise Timeout)))
       = [build_request ''http://h//'' ''u'' ''p'']
   \<and> url (build_request ''http://h//'' ''u'' ''p'') = ''http://h/run_scheduled_tasks''"
proof -
  let ?w = "local_world (\<lambda>_. Raise Timeout)"
  let ?d = "[(''FLASK_APP_URL'', ''http://h//''), (''ADMIN_USERNAME'', ''u''),
             (''ADMIN_PASSWORD'', ''p'')]"
  have a: "fst (load_env_variables ?w) = Some ?d" by (simp add: local_load)
  have b: "dict_get ?d ''FLASK_APP_URL'' = Some (''http://h'' @ replicate 2 CHR ''/'')"
    by (simp add: dict_get_def numeral_2_eq_2)
  have c: "''http://h'' = [] \<or> last ''http://h'' \<noteq> CHR ''/''" by simp
  have d: "requests (trigger_scheduled_tasks ?w) = [build_request ''http://h//'' ''u'' ''p'']"
    by (simp add: local_trigger handle_exception_requests)
  have "url (build_request ''http://h//'' ''u'' ''p'') = ''http://h'' @ ''/run_scheduled_tasks''"
    by (rule endpoint_url_strips_all_trailing_slashes[OF a b c d])
  then have e: "url (build_request ''http://h//'' ''u'' ''p'') = ''http://h/run_scheduled_tasks''"
    by simp
  show ?thesis by (rule conjI[OF a conjI[OF d e]])
qed

text \<open>
  C3. \<open>main\<close> ends with exit code 0 when the trigger returns \<open>True\<close> and with exit
  code 1 in every other case, an exception that reaches it included: every run ends with
  exit code 0 or 1, never with an exception nobody caught.
\<close>

theorem main_exit_code:
  "ending (main w) = Exit (if result (trigger_scheduled_tasks w) = Return True then 0 else 1)
   \<and> (ending (main w) = Exit 0 \<or> ending (main w) = Exit 1)"
proof (cases "result (trigger_scheduled_tasks w)")
  case (Return b)
  then show ?thesis by (simp add: main_def Let_def)
next
  case (Raise e)
  then show ?thesis by (cases e) (simp_all add: main_def Let_def)
qed

text \<open>An interrupt during the request reaches \<open>main\<close>, and the run ends with exit code 1.\<close>

theorem main_exit_code_witness:
  "result (trigger_scheduled_tasks (local_world (\<lambda>_. Raise KeyboardInterrupt)))
     = Raise KeyboardInterrupt
   \<and> ending (main (local_world (\<lambda>_. Raise KeyboardInterrupt))) = Exit 1"
proof -
  have r: "result (trigger_scheduled_tasks (local_world (\<lambda>_. Raise KeyboardInterrupt)))
     = Raise KeyboardInterrupt"
    by (simp add: local_trigger handle_exception_interrupt)
  from main_exit_code[of "local_world (\<lambda>_. Raise KeyboardInterrupt)"]
  have "ending (main (local_world (\<lambda>_. Raise KeyboardInterrupt))) = Exit 1"
    unfolding r by simp
  with r show ?thesis ..
qed

text \<open>
  C4. Whenever the POST that was sent ends otherwise than with status 200 (any other
  status, whatever the body; or a timeout, a connection failure or any other exception),
  \<open>trigger_scheduled_tasks\<close> returns \<open>False\<close>. The request was sent with a
  timeout of 30.
\<close>

theorem trigger_fails_unless_200:
  assumes "requests (trigger_scheduled_tasks w) = [req]"
    and "(\<exists>r. post w req = Return r \<and> status_code r \<noteq> 200)
         \<or> (\<exists>e. post w req = Raise e \<and> isinstance_Exception e)"
  shows "result (trigger_scheduled_tasks w) = Return False \<and> timeout req = 30"
proof (cases w rule: trigger_requests_cases)
  case silent
  with assms(1) show ?thesis by simp
next
  case (sent d u n p)
  from sent(8) assms(1) have req: "req = build_request u n p" by simp
  have "result (trigger_scheduled_tasks w) = Return False"
    unfolding trigger_with_config[OF sent(1-7)]
    using assms(2) unfolding req
    by (auto simp: handle_exception_result handle_response_def)
  moreover have "timeout req = 30" by (simp add: req build_request_def)
  ultimately show ?thesis ..
qed

theorem trigger_fails_unless_200_witness:
  "requests (trigger_scheduled_tasks (local_world (\<lambda>_. Return denied)))
     = [build_request ''http://h//'' ''u'' ''p'']
   \<and> ((\<exists>r. post (local_world (\<lambda>_. Return denied)) (build_request ''http://h//'' ''u'' ''p'')
              = Return r \<and> status_code r \<noteq> 200)
        \<or> (\<exists>e. post (local_world (\<lambda>_. Return denied)) (build_request ''http://h//'' ''u'' ''p'')
              = Raise e \<and> isinstance_Exception e))
   \<and> result (trigger_scheduled_tasks (local_world (\<lambda>_. Return denied))) = Return False"
proof -
  let ?w = "local_world (\<lambda>_. Return denied)"
  let ?q = "build_request ''http://h//'' ''u'' ''p''"
  have a: "requests (trigger_scheduled_tasks ?w) = [?q]"
    by (simp add: local_trigger handle_response_requests)
  have b: "(\<exists>r. post ?w ?q = Return r \<and> status_code r \<noteq> 200)
        \<or> (\<exists>e. post ?w ?q = Raise e \<and> isinstance_Exception e)"
    by (simp add: local_world_def denied_def)
  from trigger_fails_unless_200[OF a b]
  have c: "result (trigger_scheduled_tasks ?w) = Return False" ..
  show ?thesis by (rule conjI[OF a conjI[OF b c]])
qed

text \<open>
  C5. Whenever the POST is answered with status 200 and a body that parses to a JSON
  object, \<open>trigger_scheduled_tasks\<close> returns \<open>True\<close>; it logs \<open>tasks_executed\<close> and
  \<open>total_due_tasks\<close>, each 0 when absent, and logs \<open>errors\<close> as a warning exactly when
  it is present and true (a non-empty list is), which leaves the result as it is.
\<close>

theorem trigger_succeeds_on_200_object:
  assumes "requests (trigger_scheduled_tasks w) = [req]"
    and "post w req = Return r" and "status_code r = 200"
    and "json_body r = Some (JObj obj)"
  shows "result (trigger_scheduled_tasks w) = Return True
    \<and> logged (trigger_scheduled_tasks w) =
        snd (load_env_variables w) @
        [(INFO, Triggering (url req)), (INFO, ExecutedSuccessfully),
         (INFO, TasksExecuted (case map_of obj ''tasks_executed'' of None \<Rightarrow> JInt 0 | Some v \<Rightarrow> v)),
         (INFO, TotalDueTasks (case map_of obj ''total_due_tasks'' of None \<Rightarrow> JInt 0 | Some v \<Rightarrow> v))] @
        (case map_of obj ''errors'' of
           None \<Rightarrow> []
         | Some errs \<Rightarrow> if truthy errs then [(WARNING, SomeTasksHadErrors errs)] else [])
    \<and> (\<forall>es. map_of obj ''errors'' = Some (JArr es) \<and> es \<noteq> [] \<longrightarrow>
           (WARNING, SomeTasksHadErrors (JArr es)) \<in> set (logged (trigger_scheduled_tasks w)))"
proof (cases w rule: trigger_requests_cases)
  case silent
  with assms(1) show ?thesis by simp
next
  case (sent d u n p)
  from sent(8) assms(1) have req: "req = build_request u n p" by simp
  have u: "url (build_request u n p) = endpoint_url u" by (simp add: build_request_def)
  show ?thesis
    unfolding trigger_with_config[OF sent(1-7)]
    using assms(2-) unfolding req
    by (simp add: handle_response_def handle_200_def get_default_def u Let_def
             split: option.split)
qed

theorem trigger_succeeds_on_200_object_witness:
  "result (trigger_scheduled_tasks (local_world (\<lambda>_. Return partial_report))) = Return True
   \<and> logged (trigger_scheduled_tasks (local_world (\<lambda>_. Return partial_report))) =
       [(INFO, LoadedFromEnvFile 3), (INFO, Triggering ''http://h/run_scheduled_tasks''),
        (INFO, ExecutedSuccessfully), (INFO, TasksExecuted (JInt 5)),
        (INFO, TotalDueTasks (JInt 0)), (WARNING, SomeTasksHadErrors (JArr [JStr ''boom'']))]"
proof -
  let ?w = "local_world (\<lambda>_. Return partial_report)"
  let ?q = "build_request ''http://h//'' ''u'' ''p''"
  let ?obj = "[(''tasks_executed'', JInt 5), (''errors'', JArr [JStr ''boom''])]"
  have a: "requests (trigger_scheduled_tasks ?w) = [?q]"
    by (simp add: local_trigger handle_response_requests)
  have b: "post ?w ?q = Return partial_report" by (simp add: local_world_def)
  have c: "status_code partial_report = 200" by (simp add: partial_report_def)
  have d: "json_body partial_report = Some (JObj ?obj)" by (simp add: partial_report_def)
  have u: "url ?q = ''http://h/run_scheduled_tasks''"
    by (simp add: build_request_def local_request)
  from trigger_succeeds_on_200_object[OF a b c d] show ?thesis
    by (simp add: local_load u)
qed

text \<open>
  C6. When \<open>load_env_variables\<close> fails, or the mapping it returns lacks one of
  \<open>FLASK_APP_URL\<close>, \<open>ADMIN_USERNAME\<close> and \<open>ADMIN_PASSWORD\<close>,
  \<open>trigger_scheduled_tasks\<close> returns \<open>False\<close> and sends no request.
\<close>

theorem trigger_sends_nothing_without_config:
  assumes "fst (load_env_variables w) = None
     \<or> (\<exists>d. fst (load_env_variables w) = Some d
            \<and> (dict_get d ''FLASK_APP_URL'' = None \<or> dict_get d ''ADMIN_USERNAME'' = None
                \<or> dict_get d ''ADMIN_PASSWORD'' = None))"
  shows "result (trigger_scheduled_tasks w) = Return False
    \<and> requests (trigger_scheduled_tasks w) = []"
proof (cases "fst (load_env_variables w)")
  case None
  then show ?thesis by (simp add: trigger_without_config)
next
  case (Some d)
  with assms have k: "dict_get d ''FLASK_APP_URL'' = None \<or> dict_get d ''ADMIN_USERNAME'' = None
                \<or> dict_get d ''ADMIN_PASSWORD'' = None"
    by simp
  show ?thesis
  proof (cases "d = []")
    case True
    with Some show ?thesis by (simp add: trigger_without_config)
  next
    case False
    from trigger_missing_key[OF Some False absent_not_present[OF k]] show ?thesis by simp
  qed
qed

theorem trigger_sends_nothing_without_config_witness:
  "fst (load_env_variables bare_world) = None
   \<and> result (trigger_scheduled_tasks bare_world) = Return False
   \<and> requests (trigger_scheduled_tasks bare_world) = []
   \<and> fst (load_env_variables two_keys_world) =
       Some [(''FLASK_APP_URL'', ''http://h''), (''ADMIN_USERNAME'', ''u'')]
   \<and> dict_get [(''FLASK_APP_URL'', ''http://h''), (''ADMIN_USERNAME'', ''u'')] ''ADMIN_PASSWORD''
       = None
   \<and> result (trigger_scheduled_tasks two_keys_world) = Return False
   \<and> requests (trigger_scheduled_tasks two_keys_world) = []"
proof -
  let ?d = "[(''FLASK_APP_URL'', ''http://h''), (''ADMIN_USERNAME'', ''u'')]"
  have a: "fst (load_env_variables bare_world) = None"
    by (simp add: load_env_variables_def bare_world_def)
  then have "fst (load_env_variables bare_world) = None
     \<or> (\<exists>d. fst (load_env_variables bare_world) = Some d
            \<and> (dict_get d ''FLASK_APP_URL'' = None \<or> dict_get d ''ADMIN_USERNAME'' = None
                \<or> dict_get d ''ADMIN_PASSWORD'' = None))" ..
  note t1 = trigger_sends_nothing_without_config[OF this]
  from t1 have b: "result (trigger_scheduled_tasks bare_world) = Return False" ..
  from t1 have c: "requests (trigger_scheduled_tasks bare_world) = []" ..
  note d = two_keys_load
  have e: "dict_get ?d ''ADMIN_PASSWORD'' = None" by (simp add: dict_get_def)
  then have "dict_get ?d ''FLASK_APP_URL'' = None \<or> dict_get ?d ''ADMIN_USERNAME'' = None
                \<or> dict_get ?d ''ADMIN_PASSWORD'' = None" by (intro disjI2)
  with d have "\<exists>d. fst (load_env_variables two_keys_world) = Some d
            \<and> (dict_get d ''FLASK_APP_URL'' = None \<or> dict_get d ''ADMIN_USERNAME'' = None
                \<or> dict_get d ''ADMIN_PASSWORD'' = None)" by (intro exI[of _ ?d] conjI)
  then have "fst (load_env_variables two_keys_world) = None
     \<or> (\<exists>d. fst (load_env_variables two_keys_world) = Some d
            \<and> (dict_get d ''FLASK_APP_URL'' = None \<or> dict_get d ''ADMIN_USERNAME'' = None
                \<or> dict_get d ''ADMIN_PASSWORD'' = None))" ..
  note t2 = trigger_sends_nothing_without_config[OF this]
  from t2 have f: "result (trigger_scheduled_tasks two_keys_world) = Return False" ..
  from t2 have g: "requests (trigger_scheduled_tasks two_keys_world) = []" ..
  show ?thesis
    by (rule conjI[OF a conjI[OF b conjI[OF c conjI[OF d conjI[OF e conjI[OF f g]]]]]])
qed

text \<open>
  C7. In file mode, for every file content, \<open>load_env_variables\<close> returns the mapping
  the specification describes: each line that is not blank, is no \<open>#\<close> comment and
  contains \<open>=\<close> sets the trimmed text before the first \<open>=\<close> to the trimmed text
  after it, without surrounding quote characters; every entry of the mapping comes from
  such a line, so blank lines and comments contribute nothing.
\<close>

theorem load_env_variables_file_mapping:
  assumes "environ w ''GITHUB_ACTIONS'' \<noteq> Some ''true''" and "env_file w = Content c"
  shows "\<exists>d. load_env_variables w = (Some d, [(INFO, LoadedFromEnvFile (length d))])
           \<and> dict_get d = spec_mapping (file_lines c) \<and> distinct (map fst d)
           \<and> (\<forall>k v. dict_get d k = Some v \<longrightarrow>
                 (\<exists>l\<in>set (file_lines c). \<not> spec_blank l \<and> \<not> spec_comment l
                     \<and> CHR ''='' \<in> set l \<and> k = spec_key l \<and> v = spec_value l))"
proof -
  let ?d = "fold (\<lambda>(k, v). dict_set k v) (spec_entries (file_lines c)) []"
  have "load_env_variables w = (Some ?d, [(INFO, LoadedFromEnvFile (length ?d))])"
    unfolding load_env_variables_file[OF assms] by (simp add: read_env_lines_fold)
  moreover have m: "dict_get ?d = spec_mapping (file_lines c)"
    by (simp add: dict_get_def[abs_def] spec_mapping_def map_of_fold_dict_set)
  moreover have "distinct (map fst ?d)" by (rule distinct_fold_dict_set) simp
  moreover have "\<exists>l\<in>set (file_lines c). \<not> spec_blank l \<and> \<not> spec_comment l
                     \<and> CHR ''='' \<in> set l \<and> k = spec_key l \<and> v = spec_value l"
    if "dict_get ?d k = Some v" for k v
    using spec_mapping_origin[of "file_lines c" k v] that unfolding m spec_entry_line_def
    by simp
  ultimately show ?thesis by blast
qed

theorem load_env_variables_file_mapping_witness:
  "environ (local_world (\<lambda>_. Raise Timeout)) ''GITHUB_ACTIONS'' \<noteq> Some ''true''
   \<and> env_file (local_world (\<lambda>_. Raise Timeout)) = Content local_content
   \<and> spec_mapping (file_lines local_content) ''FLASK_APP_URL'' = Some ''http://h//''
   \<and> spec_mapping (file_lines local_content) ''ADMIN_PASSWORD'' = Some ''p''
   \<and> spec_mapping (file_lines local_content) ''# admin'' = None"
proof -
  let ?w = "local_world (\<lambda>_. Raise Timeout)"
  let ?d = "[(''FLASK_APP_URL'', ''http://h//''), (''ADMIN_USERNAME'', ''u''),
             (''ADMIN_PASSWORD'', ''p'')]"
  have a: "environ ?w ''GITHUB_ACTIONS'' \<noteq> Some ''true''" by (simp add: local_world_def)
  have b: "env_file ?w = Content local_content" by (simp add: local_world_def)
  from load_env_variables_file_mapping[OF a b]
  obtain d where d: "load_env_variables ?w = (Some d, [(INFO, LoadedFromEnvFile (length d))])"
    and m: "dict_get d = spec_mapping (file_lines local_content)" by (elim exE conjE)
  from d have "d = ?d" by (simp add: local_load)
  with m have eq: "spec_mapping (file_lines local_content) = dict_get ?d" by simp
  have c: "spec_mapping (file_lines local_content) ''FLASK_APP_URL'' = Some ''http://h//''"
    unfolding eq by (simp add: dict_get_def)
  have e: "spec_mapping (file_lines local_content) ''ADMIN_PASSWORD'' = Some ''p''"
    unfolding eq by (simp add: dict_get_def)
  have f: "spec_mapping (file_lines local_content) ''# admin'' = None"
    unfolding eq by (simp add: dict_get_def)
  show ?thesis by (rule conjI[OF a conjI[OF b conjI[OF c conjI[OF e f]]]])
qed

text \<open>
  C8. Whenever the POST is answered with status 200 and a body that does not parse as
  JSON, \<open>trigger_scheduled_tasks\<close> returns \<open>False\<close>: the parse error is raised
  before the success line is logged and is caught by the handlers.
\<close>

theorem trigger_fails_on_200_unparseable:
  assumes "requests (trigger_scheduled_tasks w) = [req]"
    and "post w req = Return r" and "status_code r = 200"
    and "json_body r = None"
  shows "result (trigger_scheduled_tasks w) = Return False
    \<and> logged (trigger_scheduled_tasks w) =
        snd (load_env_variables w) @
        [(INFO, Triggering (url req)), (ERROR, RequestError JSONDecodeError)]"
proof (cases w rule: trigger_requests_cases)
  case silent
  with assms(1) show ?thesis by simp
next
  case (sent d u n p)
  from sent(8) assms(1) have req: "req = build_request u n p" by simp
  have u: "url (build_request u n p) = endpoint_url u" by (simp add: build_request_def)
  show ?thesis
    unfolding trigger_with_config[OF sent(1-7)]
    using assms(2-) unfolding req
    by (simp add: handle_response_def handle_200_def handle_exception_def u)
qed

theorem trigger_fails_on_200_unparseable_witness:
  "requests (trigger_scheduled_tasks (local_world (\<lambda>_. Return html_page)))
     = [build_request ''http://h//'' ''u'' ''p'']
   \<and> result (trigger_scheduled_tasks (local_world (\<lambda>_. Return html_page))) = Return False"
proof -
  let ?w = "local_world (\<lambda>_. Return html_page)"
  let ?q = "build_request ''http://h//'' ''u'' ''p''"
  have a: "requests (trigger_scheduled_tasks ?w) = [?q]"
    by (simp add: local_trigger handle_response_requests)
  have b: "post ?w ?q = Return html_page" by (simp add: local_world_def)
  have c: "status_code html_page = 200" by (simp add: html_page_def)
  have d: "json_body html_page = None" by (simp add: html_page_def)
  from trigger_fails_on_200_unparseable[OF a b c d] have "result (trigger_scheduled_tasks ?w) = Return False" ..
  with a show ?thesis ..
qed

text \<open>
  C9. In file mode, when no line of the \<open>.env\<close> file passes the test of the loop,
  \<open>load_env_variables\<close> returns the empty mapping, and \<open>trigger_scheduled_tasks\<close>
  does with it what it does after a failed load: it returns \<open>False\<close>, sends no
  request and logs the same last line.
\<close>

theorem trigger_treats_empty_mapping_as_failure:
  assumes "environ w ''GITHUB_ACTIONS'' \<noteq> Some ''true''" and "env_file w = Content c"
    and "\<forall>l\<in>set (file_lines c). \<not> accepted (strip_ws l)"
  shows "load_env_variables w = (Some [], [(INFO, LoadedFromEnvFile 0)])
    \<and> trigger_scheduled_tasks w =
        \<lparr>result = Return False, requests = [],
         logged = [(INFO, LoadedFromEnvFile 0), (ERROR, FailedToLoad)]\<rparr>
    \<and> (\<forall>w'. fst (load_env_variables w') = None \<longrightarrow>
          result (trigger_scheduled_tasks w') = result (trigger_scheduled_tasks w)
          \<and> requests (trigger_scheduled_tasks w') = requests (trigger_scheduled_tasks w)
          \<and> last (logged (trigger_scheduled_tasks w')) = last (logged (trigger_scheduled_tasks w)))"
proof -
  have load: "load_env_variables w = (Some [], [(INFO, LoadedFromEnvFile 0)])"
    unfolding load_env_variables_file[OF assms(1,2)]
    by (simp add: read_env_lines_rejected[OF assms(3)])
  then have run: "trigger_scheduled_tasks w =
        \<lparr>result = Return False, requests = [],
         logged = [(INFO, LoadedFromEnvFile 0), (ERROR, FailedToLoad)]\<rparr>"
    using trigger_without_config[of w] by simp
  have "result (trigger_scheduled_tasks w') = result (trigger_scheduled_tasks w)
          \<and> requests (trigger_scheduled_tasks w') = requests (trigger_scheduled_tasks w)
          \<and> last (logged (trigger_scheduled_tasks w')) = last (logged (trigger_scheduled_tasks w))"
    if "fst (load_env_variables w') = None" for w'
    using trigger_without_config[of w'] that by (simp add: run)
  with load run show ?thesis by blast
qed

theorem trigger_treats_empty_mapping_as_failure_witness:
  "environ comment_world ''GITHUB_ACTIONS'' \<noteq> Some ''true''
   \<and> env_file comment_world = Content comments_only
   \<and> list_all (\<lambda>l. \<not> accepted (strip_ws l)) (file_lines comments_only)
   \<and> load_env_variables comment_world = (Some [], [(INFO, LoadedFromEnvFile 0)])
   \<and> result (trigger_scheduled_tasks comment_world) = Return False
   \<and> requests (trigger_scheduled_tasks comment_world) = []"
proof -
  have a: "environ comment_world ''GITHUB_ACTIONS'' \<noteq> Some ''true''"
    by (simp add: comment_world_def)
  have b: "env_file comment_world = Content comments_only" by (simp add: comment_world_def)
  have c: "\<forall>l\<in>set (file_lines comments_only). \<not> accepted (strip_ws l)"
    using comments_only_rejected by (simp only: list_all_iff)
  note t = trigger_treats_empty_mapping_as_failure[OF a b c]
  from t have d: "load_env_variables comment_world = (Some [], [(INFO, LoadedFromEnvFile 0)])" ..
  from t have "trigger_scheduled_tasks comment_world =
        \<lparr>result = Return False, requests = [],
         logged = [(INFO, LoadedFromEnvFile 0), (ERROR, FailedToLoad)]\<rparr>" by (elim conjE)
  then have e: "result (trigger_scheduled_tasks comment_world) = Return False"
    and f: "requests (trigger_scheduled_tasks comment_world) = []" by simp_all
  show ?thesis
    by (rule conjI[OF a conjI[OF b conjI[OF comments_only_rejected conjI[OF d conjI[OF e f]]]]])
qed

text \<open>
  C10. In CI mode a variable set to the empty string is treated as an absent one: unsetting
  every empty variable changes nothing in what \<open>load_env_variables\<close> returns and logs;
  loading succeeds exactly when at least three of the nine variables are set and not
  empty; the mapping holds exactly those.
\<close>

theorem load_env_variables_ci_ignores_empty:
  assumes "environ w ''GITHUB_ACTIONS'' = Some ''true''"
  shows "load_env_variables (w\<lparr>environ := unset_empty (environ w)\<rparr>) = load_env_variables w
    \<and> (fst (load_env_variables w) \<noteq> None \<longleftrightarrow>
           3 \<le> length (filter (\<lambda>k. present (environ w k)) required_vars))
    \<and> (\<forall>d k. fst (load_env_variables w) = Some d \<longrightarrow>
           dict_get d k = (if k \<in> set required_vars \<and> present (environ w k)
                           then environ w k else None))"
proof (intro conjI allI impI)
  have flag: "environ (w\<lparr>environ := unset_empty (environ w)\<rparr>) ''GITHUB_ACTIONS'' = Some ''true''"
    using assms by (simp add: unset_empty_def)
  show "load_env_variables (w\<lparr>environ := unset_empty (environ w)\<rparr>) = load_env_variables w"
    unfolding load_env_variables_ci[OF flag] load_env_variables_ci[OF assms]
    by (simp add: ci_entry_unset_empty)
  show "fst (load_env_variables w) \<noteq> None \<longleftrightarrow>
           3 \<le> length (filter (\<lambda>k. present (environ w k)) required_vars)"
    unfolding load_env_variables_ci[OF assms]
    by (simp add: Let_def length_map_filter_ci)
  show "dict_get d k = (if k \<in> set required_vars \<and> present (environ w k)
                           then environ w k else None)"
    if "fst (load_env_variables w) = Some d" for d k
    using that unfolding load_env_variables_ci[OF assms]
    by (auto simp: Let_def dict_get_def map_of_map_filter_ci split: if_splits)
qed

theorem load_env_variables_ci_ignores_empty_witness:
  "environ padded_world ''GITHUB_ACTIONS'' = Some ''true''
   \<and> environ padded_world ''DB_HOST'' = Some []
   \<and> fst (load_env_variables padded_world) =
       Some [(''FLASK_APP_URL'', ''http://h''), (''ADMIN_USERNAME'', ''u''),
             (''ADMIN_PASSWORD'', ''p'')]
   \<and> load_env_variables (padded_world\<lparr>environ := unset_empty (environ padded_world)\<rparr>)
       = load_env_variables padded_world
   \<and> dict_get [(''FLASK_APP_URL'', ''http://h''), (''ADMIN_USERNAME'', ''u''),
                (''ADMIN_PASSWORD'', ''p'')] ''DB_HOST'' = None"
proof -
  let ?d = "[(''FLASK_APP_URL'', ''http://h''), (''ADMIN_USERNAME'', ''u''),
             (''ADMIN_PASSWORD'', ''p'')]"
  have flag: "environ padded_world ''GITHUB_ACTIONS'' = Some ''true''"
    by (simp add: padded_world_def padded_environ_def)
  have host: "environ padded_world ''DB_HOST'' = Some []"
    by (simp add: padded_world_def padded_environ_def)
  have d: "fst (load_env_variables padded_world) = Some ?d" by (simp add: padded_load)
  note t = load_env_variables_ci_ignores_empty[OF flag]
  from t have same: "load_env_variables (padded_world\<lparr>environ := unset_empty (environ padded_world)\<rparr>)
       = load_env_variables padded_world" ..
  from t have "\<forall>d k. fst (load_env_variables padded_world) = Some d \<longrightarrow>
           dict_get d k = (if k \<in> set required_vars \<and> present (environ padded_world k)
                           then environ padded_world k else None)" by (elim conjE)
  with d have "dict_get ?d ''DB_HOST'' =
      (if ''DB_HOST'' \<in> set required_vars \<and> present (environ padded_world ''DB_HOST'')
       then environ padded_world ''DB_HOST'' else None)" by (elim allE impE)
  then have none: "dict_get ?d ''DB_HOST'' = None" by (simp add: host present_def)
  show ?thesis by (rule conjI[OF flag conjI[OF host conjI[OF d conjI[OF same none]]]])
qed

end
